theory Spec2Isabelle
  imports Complex_Main "HOL-Library.AList"
begin

section \<open>Python values\<close>

text \<open>
  The exceptions the modelled functions can raise. \<open>HTTPException\<close> carries the status
  code that \<open>query_geo\<close> gives it.
\<close>

datatype py_error = ValueError | OverflowError | ZeroDivisionError | KeyError | HTTPException nat

text \<open>
  A Python float is NaN, an infinity, or a finite double. A finite double is taken as the
  real number it denotes and arithmetic on finite values is exact: the rounding of binary64
  and the overflow of an operation on finite operands are outside the model. NaN and the
  infinities are values of the model, with the comparisons and the arithmetic that Python
  gives them.
\<close>

datatype pyfloat = Fin real | PInf | NInf | NaN

fun isna :: "pyfloat \<Rightarrow> bool" where
  "isna NaN = True"
| "isna _ = False"

text \<open>\<open>a < b\<close> on floats: false as soon as one side is NaN.\<close>

fun float_lt :: "pyfloat \<Rightarrow> pyfloat \<Rightarrow> bool" where
  "float_lt NaN _ = False"
| "float_lt _ NaN = False"
| "float_lt (Fin x) (Fin y) = (x < y)"
| "float_lt NInf NInf = False"
| "float_lt NInf _ = True"
| "float_lt _ NInf = False"
| "float_lt PInf _ = False"
| "float_lt _ PInf = True"

fun float_eq :: "pyfloat \<Rightarrow> pyfloat \<Rightarrow> bool" where
  "float_eq (Fin x) (Fin y) = (x = y)"
| "float_eq PInf PInf = True"
| "float_eq NInf NInf = True"
| "float_eq _ _ = False"

definition float_gt :: "pyfloat \<Rightarrow> pyfloat \<Rightarrow> bool" where
  "float_gt a b = float_lt b a"

definition float_le :: "pyfloat \<Rightarrow> pyfloat \<Rightarrow> bool" where
  "float_le a b = (float_lt a b \<or> float_eq a b)"

definition float_ge :: "pyfloat \<Rightarrow> pyfloat \<Rightarrow> bool" where
  "float_ge a b = float_le b a"

text \<open>\<open>a - b\<close>.\<close>

fun float_sub :: "pyfloat \<Rightarrow> pyfloat \<Rightarrow> pyfloat" where
  "float_sub NaN _ = NaN"
| "float_sub _ NaN = NaN"
| "float_sub (Fin x) (Fin y) = Fin (x - y)"
| "float_sub PInf PInf = NaN"
| "float_sub NInf NInf = NaN"
| "float_sub PInf _ = PInf"
| "float_sub NInf _ = NInf"
| "float_sub (Fin x) PInf = NInf"
| "float_sub (Fin x) NInf = PInf"

text \<open>\<open>a * b\<close>: an infinity times zero is NaN, otherwise the signs multiply.\<close>

fun float_mul :: "pyfloat \<Rightarrow> pyfloat \<Rightarrow> pyfloat" where
  "float_mul NaN _ = NaN"
| "float_mul _ NaN = NaN"
| "float_mul (Fin x) (Fin y) = Fin (x * y)"
| "float_mul (Fin x) PInf = (if x = 0 then NaN else if 0 < x then PInf else NInf)"
| "float_mul (Fin x) NInf = (if x = 0 then NaN else if 0 < x then NInf else PInf)"
| "float_mul PInf (Fin y) = (if y = 0 then NaN else if 0 < y then PInf else NInf)"
| "float_mul NInf (Fin y) = (if y = 0 then NaN else if 0 < y then NInf else PInf)"
| "float_mul PInf PInf = PInf"
| "float_mul NInf NInf = PInf"
| "float_mul PInf NInf = NInf"
| "float_mul NInf PInf = NInf"

text \<open>
  \<open>a / b\<close>: Python tests the divisor first and raises \<open>ZeroDivisionError\<close> when it is
  zero, whatever the dividend.
\<close>

fun float_truediv :: "pyfloat \<Rightarrow> pyfloat \<Rightarrow> py_error + pyfloat" where
  "float_truediv a (Fin y) =
     (if y = 0 then Inl ZeroDivisionError
      else case a of
        Fin x \<Rightarrow> Inr (Fin (x / y))
      | PInf \<Rightarrow> Inr (if 0 < y then PInf else NInf)
      | NInf \<Rightarrow> Inr (if 0 < y then NInf else PInf)
      | NaN \<Rightarrow> Inr NaN)"
| "float_truediv a NaN = Inr NaN"
| "float_truediv (Fin x) _ = Inr (Fin 0)"
| "float_truediv _ _ = Inr NaN"

text \<open>
  The builtins \<open>min(a, b)\<close> and \<open>max(a, b)\<close> keep their first argument unless the second
  is strictly smaller (greater): with a NaN second argument the first is returned.
\<close>

definition py_min :: "pyfloat \<Rightarrow> pyfloat \<Rightarrow> pyfloat" where
  "py_min a b = (if float_lt b a then b else a)"

definition py_max :: "pyfloat \<Rightarrow> pyfloat \<Rightarrow> pyfloat" where
  "py_max a b = (if float_gt b a then b else a)"

text \<open>\<open>int(x)\<close> truncates toward zero and raises on NaN and on the infinities.\<close>

definition trunc :: "real \<Rightarrow> int" where
  "trunc x = (if 0 \<le> x then \<lfloor>x\<rfloor> else \<lceil>x\<rceil>)"

fun py_int :: "pyfloat \<Rightarrow> py_error + int" where
  "py_int (Fin x) = Inr (trunc x)"
| "py_int NaN = Inl ValueError"
| "py_int _ = Inl OverflowError"

section \<open>Formatting integers\<close>

definition hex_digit :: "nat \<Rightarrow> char" where
  "hex_digit d = ''0123456789abcdef'' ! d"

fun hex_digits :: "nat \<Rightarrow> string" where
  "hex_digits n = (if n < 16 then [hex_digit n] else hex_digits (n div 16) @ [hex_digit (n mod 16)])"

text \<open>
  The format specification \<open>02x\<close>: lowercase hexadecimal, a minus sign for a negative
  number, zeros after the sign up to a width of two. A longer number is not cut.
\<close>

definition fmt_02x :: "int \<Rightarrow> string" where
  "fmt_02x n =
     (let sign = (if n < 0 then ''-'' else '''');
          ds = hex_digits (nat \<bar>n\<bar>)
      in sign @ replicate (2 - length sign - length ds) CHR ''0'' @ ds)"

section \<open>Height to colour\<close>

text \<open>
  \<open>height_to_color\<close> (main.py, lines 93 to 104). \<open>pd.isna\<close> on a float is the NaN test.
\<close>

definition height_to_color :: "pyfloat \<Rightarrow> pyfloat \<Rightarrow> pyfloat \<Rightarrow> py_error + string" where
  "height_to_color height low_h high_h =
     (if isna height then Inr ''#1f78b4''
      else if float_eq high_h low_h then Inr ''#1f78b4''
      else case float_truediv (float_sub height low_h) (float_sub high_h low_h) of
        Inl e \<Rightarrow> Inl e
      | Inr ratio0 \<Rightarrow>
          (let ratio = py_max (Fin 0) (py_min (Fin 1) ratio0) in
           case py_int (float_mul (Fin 255) ratio) of
             Inl e \<Rightarrow> Inl e
           | Inr r \<Rightarrow>
               (case py_int (float_mul (Fin 255) (float_sub (Fin 1) ratio)) of
                  Inl e \<Rightarrow> Inl e
                | Inr g \<Rightarrow> (let b = 0 in Inr (''#'' @ fmt_02x r @ fmt_02x g @ fmt_02x b)))))"

section \<open>Characters and texts\<close>

text \<open>
  A text is a list of characters, each read as the code point of the same number (0 to 255,
  the Latin-1 range of Python's \<open>str\<close>). The character classes are those of Python's
  \<open>re\<close> on a \<open>str\<close> pattern, cut to that range: \<open>\d\<close> is a decimal digit, \<open>\s\<close> is
  \<open>str.isspace\<close>, \<open>\w\<close> is an alphanumeric character or the underscore.
\<close>

definition is_digit :: "char \<Rightarrow> bool" where
  "is_digit c = (c \<in> set ''0123456789'')"

definition is_space :: "char \<Rightarrow> bool" where
  "is_space c = ((of_char c :: nat) \<in> set [9, 10, 11, 12, 13, 28, 29, 30, 31, 32, 133, 160])"

definition is_word :: "char \<Rightarrow> bool" where
  "is_word c =
     (let n = (of_char c :: nat)
      in (48 \<le> n \<and> n \<le> 57) \<or> (65 \<le> n \<and> n \<le> 90) \<or> n = 95 \<or> (97 \<le> n \<and> n \<le> 122)
         \<or> n \<in> set [170, 178, 179, 181, 185, 186, 188, 189, 190]
         \<or> (192 \<le> n \<and> n \<le> 214) \<or> (216 \<le> n \<and> n \<le> 246) \<or> 248 \<le> n)"

text \<open>
  \<open>str.lower\<close> on one character: the capital letters of ASCII and of Latin-1 (the
  multiplication sign 215 is not a letter) move up by 32.
\<close>

definition lower_char :: "char \<Rightarrow> char" where
  "lower_char c =
     (let n = (of_char c :: nat)
      in if (65 \<le> n \<and> n \<le> 90) \<or> (192 \<le> n \<and> n \<le> 222 \<and> n \<noteq> 215)
         then char_of (n + 32) else c)"

definition py_lower :: "string \<Rightarrow> string" where
  "py_lower s = map lower_char s"

definition py_strip :: "string \<Rightarrow> string" where
  "py_strip s = rev (dropWhile is_space (rev (dropWhile is_space s)))"

section \<open>Regular expressions\<close>

text \<open>
  The part of Python's \<open>re\<close> that \<open>HEIGHT_REGEX\<close> uses, compiled with \<open>IGNORECASE\<close> and
  \<open>VERBOSE\<close> (white space in the pattern is not part of it): literal text compared without
  regard to case, a character class repeated between two bounds (greedy or lazy), the word
  boundary, sequence, ordered alternative, the greedy option and the named group.
\<close>

datatype cls = Digit | NonDigit | Space

datatype regex =
    Lit string
  | Rep cls nat "nat option" bool
  | WordB
  | Seq "regex list"
  | Alt "regex list"
  | Opt regex
  | Grp string regex

text \<open>The groups closed so far, the latest first: name, start and end.\<close>

type_synonym caps = "(string \<times> nat \<times> nat) list"

fun in_cls :: "cls \<Rightarrow> char \<Rightarrow> bool" where
  "in_cls Digit c = is_digit c"
| "in_cls NonDigit c = (\<not> is_digit c)"
| "in_cls Space c = is_space c"

definition word_at :: "string \<Rightarrow> nat \<Rightarrow> bool" where
  "word_at s i = (i < length s \<and> is_word (s ! i))"

definition at_boundary :: "string \<Rightarrow> nat \<Rightarrow> bool" where
  "at_boundary s i = ((0 < i \<and> word_at s (i - 1)) \<noteq> word_at s i)"

text \<open>The literal \<open>w\<close> stands at position \<open>i\<close> of \<open>s\<close>, case apart.\<close>

fun ci_prefix :: "string \<Rightarrow> string \<Rightarrow> bool" where
  "ci_prefix [] t = True"
| "ci_prefix (a # w) [] = False"
| "ci_prefix (a # w) (b # t) = (if lower_char a = lower_char b then ci_prefix w t else False)"

definition lit_at :: "string \<Rightarrow> string \<Rightarrow> nat \<Rightarrow> bool" where
  "lit_at w s i = ci_prefix w (drop i s)"

text \<open>
  A character class repeated between \<open>lo\<close> and \<open>hi\<close> times (\<open>None\<close>: no upper bound), on the
  text that is left, \<open>n\<close> characters taken so far; \<open>k\<close> is the rest of the match. The greedy
  form takes one more character while it can and hands over on the way back; the lazy
  form hands over first and takes one more character when the rest has failed.
\<close>

definition below :: "nat option \<Rightarrow> nat \<Rightarrow> bool" where
  "below hi n = (case hi of None \<Rightarrow> True | Some h \<Rightarrow> n < h)"

fun rep_greedy ::
    "(char \<Rightarrow> bool) \<Rightarrow> nat \<Rightarrow> nat option \<Rightarrow> string \<Rightarrow> nat \<Rightarrow> (nat \<Rightarrow> 'r option) \<Rightarrow> 'r option" where
  "rep_greedy P lo hi [] n k = (if lo \<le> n then k n else None)"
| "rep_greedy P lo hi (x # xs) n k =
     (if P x \<and> below hi n
      then (case rep_greedy P lo hi xs (Suc n) k of
              Some y \<Rightarrow> Some y
            | None \<Rightarrow> if lo \<le> n then k n else None)
      else if lo \<le> n then k n else None)"

fun rep_lazy ::
    "(char \<Rightarrow> bool) \<Rightarrow> nat \<Rightarrow> nat option \<Rightarrow> string \<Rightarrow> nat \<Rightarrow> (nat \<Rightarrow> 'r option) \<Rightarrow> 'r option" where
  "rep_lazy P lo hi [] n k = (if lo \<le> n then k n else None)"
| "rep_lazy P lo hi (x # xs) n k =
     (case (if lo \<le> n then k n else None) of
        Some y \<Rightarrow> Some y
      | None \<Rightarrow> if P x \<and> below hi n then rep_lazy P lo hi xs (Suc n) k else None)"

text \<open>
  The backtracking matcher. \<open>rmatch r s (i, c) k\<close> matches \<open>r\<close> against \<open>s\<close> from position
  \<open>i\<close> with the groups \<open>c\<close> closed so far, and hands the end position and the groups to
  \<open>k\<close>, the rest of the match; when the rest fails it goes back to the last choice that has
  an untried way left. An alternative tries its branches from left to right; an option
  tries its body before the empty match.
\<close>

fun rmatch :: "regex \<Rightarrow> string \<Rightarrow> nat \<times> caps \<Rightarrow> (nat \<times> caps \<Rightarrow> 'r option) \<Rightarrow> 'r option" where
  "rmatch (Lit w) s (i, c) k = (if lit_at w s i then k (i + length w, c) else None)"
| "rmatch (Rep cl lo hi greedy) s (i, c) k =
     (if greedy then rep_greedy (in_cls cl) lo hi (drop i s) 0 (\<lambda>n. k (i + n, c))
      else rep_lazy (in_cls cl) lo hi (drop i s) 0 (\<lambda>n. k (i + n, c)))"
| "rmatch WordB s (i, c) k = (if at_boundary s i then k (i, c) else None)"
| "rmatch (Seq []) s st k = k st"
| "rmatch (Seq (r # rs)) s st k = rmatch r s st (\<lambda>st'. rmatch (Seq rs) s st' k)"
| "rmatch (Alt []) s st k = None"
| "rmatch (Alt (r # rs)) s st k =
     (case rmatch r s st k of Some m \<Rightarrow> Some m | None \<Rightarrow> rmatch (Alt rs) s st k)"
| "rmatch (Opt r) s st k = (case rmatch r s st k of Some m \<Rightarrow> Some m | None \<Rightarrow> k st)"
| "rmatch (Grp n r) s (i, c) k = rmatch r s (i, c) (\<lambda>(j, c'). k (j, (n, i, j) # c'))"

text \<open>
  \<open>search\<close> tries the start positions from the left, the end of the text included, and
  reports the first match; \<open>scan\<close> carries the start position and the text from there on.
\<close>

fun scan :: "regex \<Rightarrow> string \<Rightarrow> nat \<Rightarrow> string \<Rightarrow> (nat \<times> caps) option" where
  "scan r s i [] = rmatch r s (i, []) Some"
| "scan r s i (x # rest) =
     (case rmatch r s (i, []) Some of Some m \<Rightarrow> Some m | None \<Rightarrow> scan r s (Suc i) rest)"

definition search :: "regex \<Rightarrow> string \<Rightarrow> (nat \<times> caps) option" where
  "search r s = scan r s 0 s"

text \<open>\<open>m.group(name)\<close>: the text of the group, \<open>None\<close> when the group took no part.\<close>

definition group :: "string \<Rightarrow> nat \<times> caps \<Rightarrow> string \<Rightarrow> string option" where
  "group s m name = map_option (\<lambda>(i, j). take (j - i) (drop i s)) (map_of (snd m) name)"

section \<open>The query parser\<close>

text \<open>\<open>HEIGHT_REGEX\<close> (main.py, lines 112 to 122), one line of the pattern per element.\<close>

definition HEIGHT_REGEX :: regex where
  "HEIGHT_REGEX = Seq [
     Grp ''anchor'' (Seq [WordB,
       Alt [Lit ''height'', Lit ''tall'', Lit ''taller'', Lit ''above'', Lit ''over'',
            Lit ''greater'', Lit ''less'', Lit ''below'', Lit ''under'',
            Seq [Lit ''at'', Rep Space 1 None True, Lit ''least''],
            Seq [Lit ''at'', Rep Space 1 None True, Lit ''most''],
            Lit ''exactly''],
       WordB]),
     Rep NonDigit 0 (Some 12) False,
     Opt (Grp ''op'' (Alt [Lit ''>='', Lit ''<='', Lit ''>'', Lit ''<'', Lit ''='', Lit ''=='',
            Seq [Lit ''greater'', Rep Space 1 None True, Lit ''than''],
            Seq [Lit ''less'', Rep Space 1 None True, Lit ''than''],
            Seq [Lit ''at'', Rep Space 1 None True, Lit ''least''],
            Seq [Lit ''at'', Rep Space 1 None True, Lit ''most''],
            Lit ''above'', Lit ''below'', Lit ''over'', Lit ''under'', Lit ''exactly''])),
     Rep Space 0 None True,
     Grp ''val'' (Seq [Rep Digit 1 None True, Opt (Seq [Lit ''.'', Rep Digit 1 None True])]),
     Rep Space 0 None True,
     Opt (Alt [Lit ''m'', Seq [Lit ''meter'', Opt (Lit ''s'')]])]"

text \<open>
  \<open>float(text)\<close> for the texts that group \<open>val\<close> can hold: decimal digits, then optionally a
  point and decimal digits. The value is the number the literal denotes; a literal of at
  least \<open>2^1024 - 2^970\<close>, the first value that rounds beyond the largest double, gives
  infinity. Python's \<open>float\<close> reads more forms (signs, exponents, \<open>inf\<close>, \<open>nan\<close>); they are
  never passed here and the model answers \<open>ValueError\<close> for every other text.
\<close>

definition digit_val :: "char \<Rightarrow> nat" where
  "digit_val c = of_char c - 48"

definition nat_of_digits :: "string \<Rightarrow> nat" where
  "nat_of_digits ds = foldl (\<lambda>a c. 10 * a + digit_val c) 0 ds"

definition literal_value :: "string \<Rightarrow> real option" where
  "literal_value s =
     (let ip = takeWhile is_digit s; rest = dropWhile is_digit s
      in if ip = [] then None
         else if rest = [] then Some (real (nat_of_digits ip))
         else if hd rest = CHR ''.'' \<and> tl rest \<noteq> [] \<and> list_all is_digit (tl rest)
           then Some (real (nat_of_digits ip) + real (nat_of_digits (tl rest)) / 10 ^ length (tl rest))
           else None)"

definition FLOAT_OVERFLOW :: real where
  "FLOAT_OVERFLOW = 2 ^ 1024 - 2 ^ 970"

definition py_float :: "string \<Rightarrow> py_error + pyfloat" where
  "py_float s =
     (case literal_value s of
        None \<Rightarrow> Inl ValueError
      | Some v \<Rightarrow> Inr (if FLOAT_OVERFLOW \<le> v then PInf else Fin v))"

record height_filter =
  op :: string
  val :: pyfloat

definition textual_map :: "(string \<times> string) list" where
  "textual_map =
     [(''>'', ''>''), (''>='', ''>=''), (''<'', ''<''), (''<='', ''<=''), (''='', ''==''),
      (''=='', ''==''), (''greater than'', ''>''), (''greater'', ''>''), (''above'', ''>''),
      (''over'', ''>''), (''at least'', ''>=''), (''less than'', ''<''), (''less'', ''<''),
      (''below'', ''<''), (''under'', ''<''), (''at most'', ''<=''), (''exactly'', ''=='')]"

text \<open>\<open>d.get(k, dflt)\<close>.\<close>

definition dict_get :: "('k \<times> 'v) list \<Rightarrow> 'k \<Rightarrow> 'v \<Rightarrow> 'v" where
  "dict_get d k dflt = (case map_of d k of None \<Rightarrow> dflt | Some v \<Rightarrow> v)"

text \<open>\<open>parse_height_filter\<close> (main.py, lines 125 to 174).\<close>

definition parse_height_filter :: "string \<Rightarrow> py_error + height_filter option" where
  "parse_height_filter query =
     (if query = [] then Inr None
      else case search HEIGHT_REGEX query of
        None \<Rightarrow> Inr None
      | Some m \<Rightarrow>
          (let raw_op = py_lower (py_strip (case group query m ''op'' of None \<Rightarrow> [] | Some t \<Rightarrow> t))
           in case py_float (case group query m ''val'' of None \<Rightarrow> [] | Some t \<Rightarrow> t) of
                Inl e \<Rightarrow> Inl e
              | Inr v \<Rightarrow>
                  (let opr =
                     (if raw_op = [] then
                        (let anchor = py_lower (case group query m ''anchor'' of None \<Rightarrow> [] | Some t \<Rightarrow> t)
                         in if anchor \<in> set [''tall'', ''taller'', ''height'', ''greater'', ''above'', ''over'']
                            then ''>''
                            else if anchor \<in> set [''less'', ''below'', ''under''] then ''<''
                            else ''=='')
                      else dict_get textual_map raw_op ''=='')
                   in Inr (Some \<lparr>op = opr, val = v\<rparr>))))"

section \<open>Attribute values\<close>

text \<open>
  The values a property cell can hold, as far as the model goes: the Python scalars, the
  numpy scalars, the pandas missing markers, a pandas \<open>Timestamp\<close> (represented by the
  text its \<open>isoformat()\<close> returns), and a flat list of scalars.
\<close>

datatype scalar =
    PyNone
  | PyBool bool
  | PyInt int
  | PyFloat pyfloat
  | PyStr string
  | NpBool bool
  | NpInt int
  | NpFloat pyfloat
  | Timestamp string
  | NaT
  | PdNA

datatype pyval = Scalar scalar | PyList "scalar list"

text \<open>
  \<open>pd.isna\<close>: one boolean for a scalar, an array of booleans, one per element, for a list.
\<close>

datatype isna_result = IsnaScalar bool | IsnaArray "bool list"

fun isna_scalar :: "scalar \<Rightarrow> bool" where
  "isna_scalar PyNone = True"
| "isna_scalar (PyFloat x) = isna x"
| "isna_scalar (NpFloat x) = isna x"
| "isna_scalar NaT = True"
| "isna_scalar PdNA = True"
| "isna_scalar _ = False"

fun pd_isna :: "pyval \<Rightarrow> isna_result" where
  "pd_isna (Scalar v) = IsnaScalar (isna_scalar v)"
| "pd_isna (PyList vs) = IsnaArray (map isna_scalar vs)"

text \<open>
  The truth value that an \<open>if\<close> asks of the result: a numpy array of one element has the
  truth value of that element, any other array raises \<open>ValueError\<close> (for the empty array
  since numpy 2.2; older versions answered false with a deprecation warning).
\<close>

fun truth :: "isna_result \<Rightarrow> py_error + bool" where
  "truth (IsnaScalar b) = Inr b"
| "truth (IsnaArray [b]) = Inr b"
| "truth (IsnaArray _) = Inl ValueError"

text \<open>
  The \<open>isinstance\<close> tests of \<open>normalize_property\<close>. Python's \<open>bool\<close> is a subclass of
  \<open>int\<close>, so it is a \<open>numbers.Integral\<close> (and a \<open>numbers.Real\<close>); numpy's \<open>bool_\<close> is
  neither.
\<close>

fun isinstance_integral :: "scalar \<Rightarrow> bool" where
  "isinstance_integral (NpInt _) = True"
| "isinstance_integral (PyInt _) = True"
| "isinstance_integral (PyBool _) = True"
| "isinstance_integral _ = False"

fun isinstance_real :: "scalar \<Rightarrow> bool" where
  "isinstance_real (NpFloat _) = True"
| "isinstance_real (PyFloat _) = True"
| "isinstance_real v = isinstance_integral v"

fun isinstance_timestamp :: "scalar \<Rightarrow> bool" where
  "isinstance_timestamp (Timestamp _) = True"
| "isinstance_timestamp _ = False"

fun isinstance_bool :: "scalar \<Rightarrow> bool" where
  "isinstance_bool (NpBool _) = True"
| "isinstance_bool (PyBool _) = True"
| "isinstance_bool _ = False"

text \<open>\<open>int(v)\<close>, \<open>float(v)\<close>, \<open>v.isoformat()\<close> and \<open>bool(v)\<close> where the tests above let them run.\<close>

fun int_of :: "scalar \<Rightarrow> scalar" where
  "int_of (NpInt n) = PyInt n"
| "int_of (PyInt n) = PyInt n"
| "int_of (PyBool b) = PyInt (if b then 1 else 0)"
| "int_of v = v"

fun float_of :: "scalar \<Rightarrow> scalar" where
  "float_of (NpFloat x) = PyFloat x"
| "float_of (PyFloat x) = PyFloat x"
| "float_of (NpInt n) = PyFloat (Fin (real_of_int n))"
| "float_of (PyInt n) = PyFloat (Fin (real_of_int n))"
| "float_of (PyBool b) = PyFloat (Fin (if b then 1 else 0))"
| "float_of v = v"

fun isoformat :: "scalar \<Rightarrow> scalar" where
  "isoformat (Timestamp t) = PyStr t"
| "isoformat v = v"

fun bool_of :: "scalar \<Rightarrow> scalar" where
  "bool_of (NpBool b) = PyBool b"
| "bool_of (PyBool b) = PyBool b"
| "bool_of v = v"

section \<open>The property normalizer\<close>

text \<open>\<open>normalize_property\<close> (main.py, lines 225 to 251), test by test.\<close>

definition normalize_property :: "pyval \<Rightarrow> py_error + pyval" where
  "normalize_property v =
     (if v = Scalar PyNone then Inr (Scalar PyNone)
      else case truth (pd_isna v) of
        Inl e \<Rightarrow> Inl e
      | Inr True \<Rightarrow> Inr (Scalar PyNone)
      | Inr False \<Rightarrow>
          (case v of
             PyList _ \<Rightarrow> Inr v
           | Scalar x \<Rightarrow>
               if isinstance_integral x then Inr (Scalar (int_of x))
               else if isinstance_real x then Inr (Scalar (float_of x))
               else if isinstance_timestamp x then Inr (Scalar (isoformat x))
               else if isinstance_bool x then Inr (Scalar (bool_of x))
               else Inr v))"

section \<open>The filter engine\<close>

text \<open>
  A row of the GeoDataFrame: its geometry (\<open>None\<close> when absent), its \<open>height\<close> cell (the
  loader refuses a file without that column) and the other property columns in order,
  whose names are other than \<open>geometry\<close> and \<open>height\<close>.
\<close>

record 'g building =
  geometry :: "'g option"
  height :: pyval
  attrs :: "(string \<times> pyval) list"

text \<open>
  What the pipeline calls in pandas, geopandas and the string formatting of floats, taken
  as given: \<open>to_numeric\<close> is \<open>pd.to_numeric(..., errors="coerce")\<close> on one cell (NaN for a
  cell that is no number), \<open>str_float\<close> the text of a float in an f-string, \<open>fmt_1f\<close> the
  format \<open>.1f\<close>, \<open>series_mean\<close> the mean of a series without NaN, \<open>total_bounds\<close> the
  bounding box of the geometries, \<open>geo_interface\<close> the GeoJSON form of a geometry (\<open>None\<close>
  when reading it raises).
\<close>

record ('g, 'j) externals =
  to_numeric :: "pyval \<Rightarrow> pyfloat"
  str_float :: "pyfloat \<Rightarrow> string"
  fmt_1f :: "pyfloat \<Rightarrow> string"
  series_mean :: "pyfloat list \<Rightarrow> pyfloat"
  total_bounds :: "'g option list \<Rightarrow> pyfloat list"
  geo_interface :: "'g \<Rightarrow> 'j option"

text \<open>\<open>gdf[mask]\<close>: the rows whose mask entry is true, in order.\<close>

definition select_rows :: "'a list \<Rightarrow> bool list \<Rightarrow> 'a list" where
  "select_rows rows msk = map fst (filter snd (zip rows msk))"

text \<open>\<open>apply_height_filter\<close> (main.py, lines 180 to 203).\<close>

definition apply_height_filter ::
    "('g, 'j) externals \<Rightarrow> 'g building list \<Rightarrow> height_filter option \<Rightarrow> 'g building list" where
  "apply_height_filter ext gdf filt =
     (case filt of
        None \<Rightarrow> gdf
      | Some f \<Rightarrow>
          (let opr = op f; v = val f;
               heights = map (\<lambda>r. to_numeric ext (height r)) gdf;
               msk =
                 (if opr = ''>'' then map (\<lambda>h. float_gt h v) heights
                  else if opr = ''>='' then map (\<lambda>h. float_ge h v) heights
                  else if opr = ''<'' then map (\<lambda>h. float_lt h v) heights
                  else if opr = ''<='' then map (\<lambda>h. float_le h v) heights
                  else map (\<lambda>h. float_eq h v) heights)
           in select_rows gdf msk))"

section \<open>The colour column\<close>

text \<open>\<open>Series.dropna()\<close>, and \<open>Series.min()\<close> and \<open>Series.max()\<close>, which skip NaN and are NaN on
  a series with nothing else.\<close>

definition dropna :: "pyfloat list \<Rightarrow> pyfloat list" where
  "dropna hs = filter (\<lambda>h. \<not> isna h) hs"

definition series_min :: "pyfloat list \<Rightarrow> pyfloat" where
  "series_min hs =
     (case dropna hs of [] \<Rightarrow> NaN | x # xs \<Rightarrow> foldl (\<lambda>m h. if float_lt h m then h else m) x xs)"

definition series_max :: "pyfloat list \<Rightarrow> pyfloat" where
  "series_max hs =
     (case dropna hs of [] \<Rightarrow> NaN | x # xs \<Rightarrow> foldl (\<lambda>m h. if float_lt m h then h else m) x xs)"

text \<open>Running a raising function over a list stops at the first exception.\<close>

fun map_raise :: "('a \<Rightarrow> py_error + 'b) \<Rightarrow> 'a list \<Rightarrow> py_error + 'b list" where
  "map_raise f [] = Inr []"
| "map_raise f (x # xs) =
     (case f x of
        Inl e \<Rightarrow> Inl e
      | Inr y \<Rightarrow> (case map_raise f xs of Inl e \<Rightarrow> Inl e | Inr ys \<Rightarrow> Inr (y # ys)))"

text \<open>\<open>gdf[name] = value\<close> on one row: the column is replaced where it stands, or added last.\<close>

definition set_column :: "string \<Rightarrow> pyval \<Rightarrow> 'g building \<Rightarrow> 'g building" where
  "set_column name v r = r\<lparr>attrs := AList.update name v (attrs r)\<rparr>"

text \<open>\<open>add_colour_column\<close> (main.py, lines 206 to 219).\<close>

definition add_colour_column ::
    "('g, 'j) externals \<Rightarrow> 'g building list \<Rightarrow> py_error + 'g building list" where
  "add_colour_column ext gdf0 =
     (let gdf = map (\<lambda>r. set_column ''height_numeric'' (Scalar (NpFloat (to_numeric ext (height r)))) r) gdf0;
          height_numeric = map (\<lambda>r. to_numeric ext (height r)) gdf;
          heights = dropna height_numeric
      in if heights = [] then Inr (map (set_column ''color'' (Scalar (PyStr ''#1f78b4''))) gdf)
         else
           (let low = series_min heights; high = series_max heights
            in case map_raise (\<lambda>h. if \<not> isna h then height_to_color h low high else Inr ''#1f78b4'')
                      height_numeric of
                 Inl e \<Rightarrow> Inl e
               | Inr colours \<Rightarrow>
                   Inr (map (\<lambda>(r, c). set_column ''color'' (Scalar (PyStr c)) r) (zip gdf colours))))"

section \<open>Insights\<close>

definition dec_digit :: "nat \<Rightarrow> char" where
  "dec_digit d = ''0123456789'' ! d"

fun dec_digits :: "nat \<Rightarrow> string" where
  "dec_digits n = (if n < 10 then [dec_digit n] else dec_digits (n div 10) @ [dec_digit (n mod 10)])"

text \<open>The format specification \<open>,\<close> on a count: a comma before every group of three digits,
  counted from the right.\<close>

fun group3 :: "string \<Rightarrow> string" where
  "group3 (a # b # c # d # ds) = a # b # c # CHR '','' # group3 (d # ds)"
| "group3 ds = ds"

definition fmt_thousands :: "nat \<Rightarrow> string" where
  "fmt_thousands n = rev (group3 (rev (dec_digits n)))"

definition op_text_map :: "(string \<times> string) list" where
  "op_text_map =
     [(''>'', ''greater than''), (''>='', ''at least''), (''<'', ''less than''),
      (''<='', ''up to''), (''=='', ''exactly'')]"

text \<open>\<open>d[k]\<close>.\<close>

definition dict_item :: "('k \<times> 'v) list \<Rightarrow> 'k \<Rightarrow> py_error + 'v" where
  "dict_item d k = (case map_of d k of None \<Rightarrow> Inl KeyError | Some v \<Rightarrow> Inr v)"

text \<open>The en dash of the third sentence, in UTF-8.\<close>

definition EN_DASH :: string where
  "EN_DASH = [char_of (226 :: nat), char_of (128 :: nat), char_of (147 :: nat)]"

text \<open>
  \<open>build_insights\<close> (main.py, lines 257 to 284). A filter is a dictionary of two entries,
  so \<open>if filt\<close> asks whether there is one. The frame has a \<open>height\<close> column by construction.
\<close>

definition build_insights ::
    "('g, 'j) externals \<Rightarrow> 'g building list \<Rightarrow> height_filter option \<Rightarrow> nat \<Rightarrow> py_error + string list" where
  "build_insights ext filtered filt total_n =
     (case (case filt of
              Some f \<Rightarrow>
                (case dict_item op_text_map (op f) of
                   Inl e \<Rightarrow> Inl e
                 | Inr op_text \<Rightarrow>
                     Inr [''Showing buildings with height '' @ op_text @ '' '' @ str_float ext (val f) @ '' m.''])
            | None \<Rightarrow> Inr [''Showing all buildings.'']) of
        Inl e \<Rightarrow> Inl e
      | Inr insights1 \<Rightarrow>
          (let insights2 = insights1 @
                 [fmt_thousands (length filtered) @ '' of '' @ fmt_thousands total_n @ '' buildings match the query.''];
               h = dropna (map (\<lambda>r. to_numeric ext (height r)) filtered)
           in if filtered \<noteq> [] \<and> h \<noteq> []
              then Inr (insights2 @
                     [''Height range in result: '' @ fmt_1f ext (series_min h) @ '' m '' @ EN_DASH @ '' ''
                        @ fmt_1f ext (series_max h) @ '' m (average '' @ fmt_1f ext (series_mean ext h) @ '' m)''])
              else Inr insights2))"

section \<open>The result assembler\<close>

record 'j feature =
  ftype :: string
  properties :: "(string \<times> pyval) list"
  fgeometry :: "'j option"

record legend =
  low :: string
  high :: string

record 'j geo_response =
  features :: "'j feature list"
  bounds :: "pyfloat list"
  insights :: "string list"
  color_legend :: legend

text \<open>\<open>row.drop(labels=[...], errors="ignore").to_dict()\<close> on a row of the coloured frame.\<close>

definition row_props :: "'g building \<Rightarrow> (string \<times> pyval) list" where
  "row_props r =
     AList.delete ''height_numeric'' (AList.delete ''geometry'' ((''height'', height r) # attrs r))"

text \<open>One turn of the loop over the rows (main.py, lines 306 to 325).\<close>

definition serialize_feature :: "('g, 'j) externals \<Rightarrow> 'g building \<Rightarrow> py_error + 'j feature" where
  "serialize_feature ext row =
     (case map_raise (\<lambda>(k, v). case normalize_property v of Inl e \<Rightarrow> Inl e | Inr v' \<Rightarrow> Inr (k, v'))
             (row_props row) of
        Inl e \<Rightarrow> Inl e
      | Inr normalized_props \<Rightarrow>
          (let geom = (case geometry row of None \<Rightarrow> None | Some g \<Rightarrow> geo_interface ext g)
           in Inr \<lparr>ftype = ''Feature'', properties = normalized_props, fgeometry = geom\<rparr>))"

text \<open>
  \<open>query_geo\<close> (main.py, lines 291 to 349); the dataset is the global \<open>BUILDINGS_GDF\<close>,
  \<open>None\<close> until the loader has run.
\<close>

definition query_geo ::
    "('g, 'j) externals \<Rightarrow> 'g building list option \<Rightarrow> string \<Rightarrow> py_error + 'j geo_response" where
  "query_geo ext BUILDINGS_GDF text =
     (case BUILDINGS_GDF of
        None \<Rightarrow> Inl (HTTPException 500)
      | Some all_rows \<Rightarrow>
          (case parse_height_filter text of
             Inl e \<Rightarrow> Inl e
           | Inr height_filt \<Rightarrow>
               (let filtered_gdf = apply_height_filter ext all_rows height_filt
                in case add_colour_column ext filtered_gdf of
                     Inl e \<Rightarrow> Inl e
                   | Inr coloured_gdf \<Rightarrow>
                       (case map_raise (serialize_feature ext) coloured_gdf of
                          Inl e \<Rightarrow> Inl e
                        | Inr feats \<Rightarrow>
                            (let bnds = (if coloured_gdf \<noteq> [] then total_bounds ext (map geometry coloured_gdf)
                                         else [Fin 0, Fin 0, Fin 1, Fin 1])
                             in case build_insights ext coloured_gdf height_filt (length all_rows) of
                                  Inl e \<Rightarrow> Inl e
                                | Inr ins \<Rightarrow>
                                    (case (if coloured_gdf \<noteq> [] then
                                             (let h = dropna (map (\<lambda>r. to_numeric ext (height r)) coloured_gdf);
                                                  low_h = series_min h; high_h = series_max h
                                              in case height_to_color low_h low_h high_h of
                                                   Inl e \<Rightarrow> Inl e
                                                 | Inr lo \<Rightarrow>
                                                     (case height_to_color high_h low_h high_h of
                                                        Inl e \<Rightarrow> Inl e
                                                      | Inr hi \<Rightarrow> Inr \<lparr>low = lo, high = hi\<rparr>))
                                           else Inr \<lparr>low = ''#1f78b4'', high = ''#1f78b4''\<rparr>) of
                                       Inl e \<Rightarrow> Inl e
                                     | Inr lgd \<Rightarrow>
                                         Inr \<lparr>features = feats, bounds = bnds, insights = ins,
                                              color_legend = lgd\<rparr>))))))"

section \<open>The specification's notions\<close>

text \<open>
  The colour the specification describes for a height inside a range: the clamped ratio,
  and a colour written as \<open>#\<close> and two lowercase hexadecimal digits per channel.
\<close>

definition spec_ratio :: "real \<Rightarrow> real \<Rightarrow> real \<Rightarrow> real" where
  "spec_ratio h lo hi = max 0 (min 1 ((h - lo) / (hi - lo)))"

definition spec_hex2 :: "int \<Rightarrow> string" where
  "spec_hex2 n = [''0123456789abcdef'' ! (nat n div 16), ''0123456789abcdef'' ! (nat n mod 16)]"

definition spec_rgb :: "int \<Rightarrow> int \<Rightarrow> int \<Rightarrow> string" where
  "spec_rgb r g b = ''#'' @ spec_hex2 r @ spec_hex2 g @ spec_hex2 b"

text \<open>The comparison on the reals that each operator symbol stands for.\<close>

definition spec_compare :: "string \<Rightarrow> (real \<Rightarrow> real \<Rightarrow> bool) option" where
  "spec_compare = map_of
     [(''>'', \<lambda>h t. h > t), (''>='', \<lambda>h t. h \<ge> t), (''<'', \<lambda>h t. h < t),
      (''<='', \<lambda>h t. h \<le> t), (''=='', \<lambda>h t. h = t)]"

section \<open>Auxiliary notions and sample data\<close>

text \<open>A pattern without groups leaves the groups as they are.\<close>

fun no_groups :: "regex \<Rightarrow> bool" where
  "no_groups (Grp n r) = False"
| "no_groups (Seq rs) = (\<forall>r \<in> set rs. no_groups r)"
| "no_groups (Alt rs) = (\<forall>r \<in> set rs. no_groups r)"
| "no_groups (Opt r) = no_groups r"
| "no_groups _ = True"

text \<open>
  The colour of a height in a range, as a value: the colour function raises on no
  arguments (lemma \<open>height_to_color_total\<close> below).
\<close>

definition colour_of :: "pyfloat \<Rightarrow> pyfloat \<Rightarrow> pyfloat \<Rightarrow> string" where
  "colour_of h lo hi = (case height_to_color h lo hi of Inr c \<Rightarrow> c | Inl e \<Rightarrow> [])"

text \<open>
  \<open>lo\<close> and \<open>hi\<close> are the least and the greatest of the numeric heights \<open>hs\<close> of a subset,
  or both NaN when the subset has no numeric height.
\<close>

definition subset_range :: "pyfloat list \<Rightarrow> pyfloat \<Rightarrow> pyfloat \<Rightarrow> bool" where
  "subset_range hs lo hi =
     (if hs = [] then lo = NaN \<and> hi = NaN
      else lo \<in> set hs \<and> hi \<in> set hs \<and> (\<forall>h \<in> set hs. float_le lo h \<and> float_le h hi))"

text \<open>A row of the coloured frame, for the range \<open>lo\<close> to \<open>hi\<close>.\<close>

definition coloured_row :: "('g, 'j) externals \<Rightarrow> pyfloat \<Rightarrow> pyfloat \<Rightarrow> 'g building \<Rightarrow> 'g building" where
  "coloured_row ext lo hi r =
     set_column ''color'' (Scalar (PyStr (colour_of (to_numeric ext (height r)) lo hi)))
       (set_column ''height_numeric'' (Scalar (NpFloat (to_numeric ext (height r)))) r)"

text \<open>
  A small instance of what the pipeline is given, for the examples: a coercion that reads
  numpy floats and takes every other cell as missing; the text of a float, right on the
  whole numbers from 0 on that the examples print (\<open>40.0\<close>); the mean of finite values; a
  frame whose geometries all lie in the box from (0, 0) to (2, 2) and have the GeoJSON form
  \<open>()\<close>; rows without further columns.
\<close>

definition whole_text :: "pyfloat \<Rightarrow> string" where
  "whole_text v = (case v of Fin x \<Rightarrow> dec_digits (nat \<lfloor>x\<rfloor>) @ ''.0'' | _ \<Rightarrow> ''nan'')"

definition mean_fin :: "pyfloat list \<Rightarrow> pyfloat" where
  "mean_fin hs = Fin (sum_list (map (\<lambda>h. case h of Fin x \<Rightarrow> x | _ \<Rightarrow> 0) hs) / real (length hs))"

definition EXT0 :: "(unit, unit) externals" where
  "EXT0 = \<lparr>to_numeric = (\<lambda>v. case v of Scalar (NpFloat x) \<Rightarrow> x | _ \<Rightarrow> NaN),
           str_float = whole_text, fmt_1f = whole_text, series_mean = mean_fin,
           total_bounds = (\<lambda>gs. [Fin 0, Fin 0, Fin 2, Fin 2]), geo_interface = (\<lambda>g. Some ())\<rparr>"

definition row :: "pyval \<Rightarrow> unit building" where
  "row h = \<lparr>geometry = Some (), height = h, attrs = []\<rparr>"

text \<open>Three buildings of heights 10, 50 and 90.\<close>

definition GDF0 :: "unit building list" where
  "GDF0 = [row (Scalar (NpFloat (Fin 10))), row (Scalar (NpFloat (Fin 50))),
           row (Scalar (NpFloat (Fin 90)))]"

section \<open>Colours: proofs\<close>

declare hex_digits.simps [simp del]




lemma clamp_ratio: "py_max (Fin 0) (py_min (Fin 1) (Fin x)) = Fin (max 0 (min 1 x))"
  by (simp add: py_max_def py_min_def float_gt_def max_def min_def)



text \<open>What the function computes on finite arguments with distinct bounds.\<close>

lemma height_to_color_fin:
  assumes "hi \<noteq> lo"
  shows "height_to_color (Fin h) (Fin lo) (Fin hi) =
           Inr (''#'' @ fmt_02x (trunc (255 * spec_ratio h lo hi))
                  @ fmt_02x (trunc (255 * (1 - spec_ratio h lo hi))) @ fmt_02x 0)"
  using assms by (simp add: height_to_color_def clamp_ratio spec_ratio_def)

lemmas colour_eval = height_to_color_fin spec_ratio_def trunc_def fmt_02x_def hex_digits.simps
  hex_digit_def spec_rgb_def spec_hex2_def




text \<open>
  Claim C3: in the range from 10 to 30, height 10 has the pure-blue colour, height 30 the
  pure-red colour, and height 20 has red and green 127 or 128 and blue 0. The code gives
  pure green \<open>#00ff00\<close>, not pure blue \<open>#0000ff\<close>, at height 10: the blue channel is the
  constant 0. Heights 30 and 20 are as the claim says (\<open>#ff0000\<close>, and \<open>0x7f = 127\<close>).
\<close>

theorem height_to_color_endpoints:
  "height_to_color (Fin 10) (Fin 10) (Fin 30) = Inr ''#00ff00'' \<and>
   height_to_color (Fin 10) (Fin 10) (Fin 30) \<noteq> Inr ''#0000ff'' \<and>
   height_to_color (Fin 30) (Fin 10) (Fin 30) = Inr ''#ff0000'' \<and>
   height_to_color (Fin 20) (Fin 10) (Fin 30) = Inr ''#7f7f00''"
  by (simp add: colour_eval)

text \<open>
  Claim C5: the colour is the sentinel \<open>#1f78b4\<close> whenever the height is missing (NaN) or
  the two bounds of the range are equal.
\<close>

theorem height_to_color_sentinel:
  "isna h \<or> float_eq high_h low_h \<Longrightarrow> height_to_color h low_h high_h = Inr ''#1f78b4''"
  by (auto simp: height_to_color_def)

theorem height_to_color_sentinel_witness:
  "(isna NaN \<or> float_eq (Fin 30) (Fin 10)) \<and> height_to_color NaN (Fin 10) (Fin 30) = Inr ''#1f78b4'' \<and>
   (isna (Fin 7) \<or> float_eq (Fin 7) (Fin 7)) \<and> height_to_color (Fin 7) (Fin 7) (Fin 7) = Inr ''#1f78b4''"
  using height_to_color_sentinel[of NaN "Fin 30" "Fin 10"]
        height_to_color_sentinel[of "Fin 7" "Fin 7" "Fin 7"]
  by simp

section \<open>The matcher: proofs\<close>

text \<open>Rules for running the matcher on a given text: the rest of a match is left alone
  until it is called.\<close>

lemma rmatch_weak_cong:
  "r = r' \<Longrightarrow> s = s' \<Longrightarrow> st = st' \<Longrightarrow> rmatch r s st k = rmatch r' s' st' k"
  by simp

lemma rep_greedy_weak_cong:
  "xs = xs' \<Longrightarrow> n = n' \<Longrightarrow> rep_greedy P lo hi xs n k = rep_greedy P lo hi xs' n' k"
  by simp

lemma rep_lazy_weak_cong:
  "xs = xs' \<Longrightarrow> n = n' \<Longrightarrow> rep_lazy P lo hi xs n k = rep_lazy P lo hi xs' n' k"
  by simp

lemmas rx_cong = rmatch_weak_cong rep_greedy_weak_cong rep_lazy_weak_cong

lemmas rx_eval = search_def HEIGHT_REGEX_def lit_at_def at_boundary_def word_at_def is_word_def
  is_digit_def is_space_def lower_char_def group_def Let_def below_def

lemmas parse_eval = parse_height_filter_def rx_eval py_float_def literal_value_def nat_of_digits_def
  digit_val_def py_lower_def py_strip_def FLOAT_OVERFLOW_def textual_map_def dict_get_def


text \<open>Where a repetition succeeds, the rest of the match succeeded after a run of the
  class whose length is within the bounds.\<close>

lemma rep_greedy_sound:
  "rep_greedy P lo hi xs n k = Some res \<Longrightarrow>
     \<exists>m. k m = Some res \<and> n \<le> m \<and> lo \<le> m \<and> m \<le> n + length xs \<and> list_all P (take (m - n) xs)"
proof (induction xs arbitrary: n)
  case Nil
  then show ?case by (auto split: if_splits)
next
  case (Cons x xs)
  show ?case
  proof (cases "P x \<and> below hi n")
    case True
    show ?thesis
    proof (cases "rep_greedy P lo hi xs (Suc n) k")
      case None
      with Cons.prems True have "lo \<le> n" "k n = Some res" by (auto split: if_splits)
      then show ?thesis by (intro exI[of _ n]) simp
    next
      case (Some y)
      with Cons.prems True have "rep_greedy P lo hi xs (Suc n) k = Some res" by simp
      from Cons.IH[OF this] obtain m where m: "k m = Some res" "Suc n \<le> m" "lo \<le> m"
        "m \<le> Suc n + length xs" "list_all P (take (m - Suc n) xs)" by blast
      then have "m - n = Suc (m - Suc n)" by simp
      with m True show ?thesis by (intro exI[of _ m]) simp
    qed
  next
    case False
    with Cons.prems have "lo \<le> n" "k n = Some res" by (auto split: if_splits)
    then show ?thesis by (intro exI[of _ n]) simp
  qed
qed

lemma rep_lazy_sound:
  "rep_lazy P lo hi xs n k = Some res \<Longrightarrow>
     \<exists>m. k m = Some res \<and> n \<le> m \<and> lo \<le> m \<and> m \<le> n + length xs \<and> list_all P (take (m - n) xs)"
proof (induction xs arbitrary: n)
  case Nil
  then show ?case by (auto split: if_splits)
next
  case (Cons x xs)
  show ?case
  proof (cases "lo \<le> n \<and> k n = Some res")
    case True
    then show ?thesis by (intro exI[of _ n]) simp
  next
    case False
    with Cons.prems have px: "P x" and rec: "rep_lazy P lo hi xs (Suc n) k = Some res"
      by (auto split: if_splits option.splits)
    from Cons.IH[OF rec] obtain m where m: "k m = Some res" "Suc n \<le> m" "lo \<le> m"
      "m \<le> Suc n + length xs" "list_all P (take (m - Suc n) xs)" by blast
    then have "m - n = Suc (m - Suc n)" by simp
    with m px show ?thesis by (intro exI[of _ m]) simp
  qed
qed

text \<open>Where a match succeeds, its rest succeeded, on groups that extend the given ones;
  a pattern without groups hands the groups on unchanged.\<close>

lemma rmatch_sound:
  "rmatch r s st k = Some res \<Longrightarrow>
     \<exists>j c'. k (j, c' @ snd st) = Some res \<and> (no_groups r \<longrightarrow> c' = [])"
proof (induction r s st k arbitrary: res rule: rmatch.induct)
  case (1 w s i c k)
  then show ?case by (auto split: if_splits intro: exI[of _ "[]"])
next
  case (2 cl lo hi greedy s i c k)
  then obtain m where "k (i + m, c) = Some res"
    by (auto split: if_splits dest: rep_greedy_sound rep_lazy_sound)
  then show ?case by (auto intro: exI[of _ "[]"])
next
  case (3 s i c k)
  then show ?case by (auto split: if_splits intro: exI[of _ "[]"])
next
  case (4 s st k)
  then show ?case by (cases st) (auto intro: exI[of _ "[]"])
next
  case (5 r rs s st k)
  from "5.prems" have "rmatch r s st (\<lambda>st'. rmatch (Seq rs) s st' k) = Some res" by simp
  from "5.IH"(2)[OF this] obtain j c1 where
    a: "rmatch (Seq rs) s (j, c1 @ snd st) k = Some res" and b: "no_groups r \<longrightarrow> c1 = []" by blast
  from "5.IH"(1)[OF a] obtain j' c2 where
    c: "k (j', c2 @ c1 @ snd st) = Some res" and d: "no_groups (Seq rs) \<longrightarrow> c2 = []" by auto
  show ?case using b c d by (intro exI[of _ j'] exI[of _ "c2 @ c1"]) auto
next
  case (6 s st k)
  then show ?case by simp
next
  case (7 r rs s st k)
  show ?case
  proof (cases "rmatch r s st k")
    case None
    with "7.prems" have "rmatch (Alt rs) s st k = Some res" by simp
    from "7.IH"(2)[OF None this] show ?thesis by auto
  next
    case (Some y)
    with "7.prems" have "rmatch r s st k = Some res" by simp
    from "7.IH"(1)[OF this] show ?thesis by auto
  qed
next
  case (8 r s st k)
  show ?case
  proof (cases "rmatch r s st k")
    case None
    with "8.prems" have "k (fst st, [] @ snd st) = Some res" by simp
    then show ?thesis by blast
  next
    case (Some y)
    with "8.prems" have "rmatch r s st k = Some res" by simp
    from "8.IH"[OF this] show ?thesis by auto
  qed
next
  case (9 n r s i c k)
  from "9.prems" have "rmatch r s (i, c) (\<lambda>(j, c'). k (j, (n, i, j) # c')) = Some res" by simp
  from "9.IH"[OF this] obtain j c' where "k (j, (n, i, j) # c' @ c) = Some res" by auto
  then show ?case by (intro exI[of _ j] exI[of _ "(n, i, j) # c'"]) simp
qed

lemma seq_step:
  assumes "rmatch (Seq (r # rs)) s st k = Some res"
  shows "\<exists>st'. rmatch (Seq rs) s st' k = Some res"
proof -
  from assms have "rmatch r s st (\<lambda>st'. rmatch (Seq rs) s st' k) = Some res" by simp
  from rmatch_sound[OF this] show ?thesis by blast
qed

lemma scan_sound: "scan r s i rest = Some m \<Longrightarrow> \<exists>i'. rmatch r s (i', []) Some = Some m"
  by (induction rest arbitrary: i) (auto split: option.splits)

section \<open>The query parser: proofs\<close>

lemma in_cls_Digit: "in_cls Digit = is_digit"
  by (rule ext) simp

lemma literal_digits:
  assumes "ds \<noteq> []" "list_all is_digit ds"
  shows "literal_value ds = Some (real (nat_of_digits ds))"
proof -
  have tw: "takeWhile is_digit ds = ds" and dw: "dropWhile is_digit ds = []"
    using assms(2) by (simp_all add: list_all_iff)
  show ?thesis unfolding literal_value_def Let_def tw dw using assms(1) by simp
qed

lemma dot_not_digit: "\<not> is_digit CHR ''.''"
  by (simp add: is_digit_def)

lemma literal_point:
  assumes "ds \<noteq> []" "list_all is_digit ds" "fs \<noteq> []" "list_all is_digit fs"
  shows "literal_value (ds @ CHR ''.'' # fs) =
           Some (real (nat_of_digits ds) + real (nat_of_digits fs) / 10 ^ length fs)"
proof -
  have tw: "takeWhile is_digit (ds @ CHR ''.'' # fs) = ds"
    using assms(2) dot_not_digit by (simp add: list_all_iff takeWhile_append2)
  have dw: "dropWhile is_digit (ds @ CHR ''.'' # fs) = CHR ''.'' # fs"
    using assms(2) dot_not_digit by (simp add: list_all_iff dropWhile_append2)
  show ?thesis unfolding literal_value_def Let_def tw dw using assms by simp
qed

lemma lower_char_point: "lower_char x = CHR ''.'' \<Longrightarrow> x = CHR ''.''"
  by (auto simp: lower_char_def Let_def char_of_eq_iff take_bit_eq_mod split: if_splits)

lemma lit_at_point:
  assumes "lit_at ''.'' s i"
  shows "i < length s \<and> s ! i = CHR ''.''"
proof -
  from assms obtain x rest where d: "drop i s = x # rest" and x: "lower_char CHR ''.'' = lower_char x"
    by (cases "drop i s") (auto simp: lit_at_def split: if_splits)
  have "lower_char CHR ''.'' = CHR ''.''" by (simp add: lower_char_def)
  with x have "x = CHR ''.''" using lower_char_point by simp
  moreover from d have "i < length s" by (cases "i < length s") auto
  moreover from d have "s ! i = x" by (metis Cons_nth_drop_Suc \<open>i < length s\<close> list.inject)
  ultimately show ?thesis by simp
qed

text \<open>The text of group \<open>val\<close> is a literal that \<open>float\<close> reads.\<close>

lemma val_inner_sound:
  assumes "rmatch (Seq [Rep Digit 1 None True, Opt (Seq [Lit ''.'', Rep Digit 1 None True])]) s (i, c) k
             = Some res"
  shows "\<exists>j. k (j, c) = Some res \<and> literal_value (take (j - i) (drop i s)) \<noteq> None"
proof -
  let ?X = "Seq [Lit ''.'', Rep Digit 1 None True]"
  from assms have "rep_greedy is_digit 1 None (drop i s) 0 (\<lambda>n. rmatch (Seq [Opt ?X]) s (i + n, c) k)
                     = Some res"
    by (simp only: rmatch.simps if_True in_cls_Digit)
  from rep_greedy_sound[OF this] obtain m where
    K: "rmatch (Seq [Opt ?X]) s (i + m, c) k = Some res" and m: "1 \<le> m" "m \<le> length (drop i s)"
    and ds: "list_all is_digit (take m (drop i s))" by auto
  let ?ds = "take m (drop i s)"
  have ne: "?ds \<noteq> []" using m by (cases "drop i s") auto
  from K have K': "(case rmatch ?X s (i + m, c) k of Some y \<Rightarrow> Some y | None \<Rightarrow> k (i + m, c)) = Some res"
    by (simp only: rmatch.simps)
  show ?thesis
  proof (cases "rmatch ?X s (i + m, c) k")
    case None
    with K' have "k (i + m, c) = Some res" by simp
    moreover have "literal_value ?ds \<noteq> None" using literal_digits[OF ne ds] by simp
    ultimately show ?thesis by (intro exI[of _ "i + m"]) simp
  next
    case (Some y)
    with K' have X: "rmatch ?X s (i + m, c) k = Some res" by simp
    then have X': "(if lit_at ''.'' s (i + m)
                    then rep_greedy is_digit 1 None (drop (i + m + length ''.'') s) 0
                           (\<lambda>n. k (i + m + length ''.'' + n, c))
                    else None) = Some res"
      by (simp only: rmatch.simps if_True in_cls_Digit)
    then have pt: "lit_at ''.'' s (i + m)"
      and "rep_greedy is_digit 1 None (drop (i + m + 1) s) 0 (\<lambda>n. k (i + m + 1 + n, c)) = Some res"
      by (simp_all split: if_splits)
    from rep_greedy_sound[OF this(2)] obtain m2 where
      k: "k (i + m + 1 + m2, c) = Some res" and m2: "1 \<le> m2" "m2 \<le> length (drop (i + m + 1) s)"
      and fs: "list_all is_digit (take m2 (drop (i + m + 1) s))" by auto
    let ?fs = "take m2 (drop (i + m + 1) s)"
    have nf: "?fs \<noteq> []" using m2 by (cases "drop (i + m + 1) s") auto
    from lit_at_point[OF pt] have p: "i + m < length s" "s ! (i + m) = CHR ''.''" by simp_all
    have "drop (i + m) s = CHR ''.'' # drop (i + m + 1) s"
      using p Cons_nth_drop_Suc[of "i + m" s] by simp
    then have dd: "drop m (drop i s) = CHR ''.'' # drop (i + m + 1) s" by (simp add: add.commute)
    have "take (m + (1 + m2)) (drop i s) = take m (drop i s) @ take (1 + m2) (drop m (drop i s))"
      by (rule take_add)
    also have "\<dots> = ?ds @ CHR ''.'' # ?fs" unfolding dd by simp
    finally have "take (m + (1 + m2)) (drop i s) = ?ds @ CHR ''.'' # ?fs" .
    moreover have "literal_value (?ds @ CHR ''.'' # ?fs) \<noteq> None"
      using literal_point[OF ne ds nf fs] by simp
    moreover have "i + m + 1 + m2 - i = m + (1 + m2)" by simp
    ultimately show ?thesis using k by (intro exI[of _ "i + m + 1 + m2"]) simp
  qed
qed

lemma search_val_literal:
  assumes "search HEIGHT_REGEX q = Some m"
  shows "\<exists>t. group q m ''val'' = Some t \<and> literal_value t \<noteq> None"
proof -
  let ?V = "Seq [Rep Digit 1 None True, Opt (Seq [Lit ''.'', Rep Digit 1 None True])]"
  let ?T = "Seq [Rep Space 0 None True, Opt (Alt [Lit ''m'', Seq [Lit ''meter'', Opt (Lit ''s'')]])]"
  from assms obtain i0 where "rmatch HEIGHT_REGEX q (i0, []) Some = Some m"
    unfolding search_def by (blast dest: scan_sound)
  then have "\<exists>st4. rmatch (Seq (Grp ''val'' ?V # [Rep Space 0 None True,
                 Opt (Alt [Lit ''m'', Seq [Lit ''meter'', Opt (Lit ''s'')]])])) q st4 Some = Some m"
    unfolding HEIGHT_REGEX_def
    apply -
    apply (drule seq_step, erule exE)
    apply (drule seq_step, erule exE)
    apply (drule seq_step, erule exE)
    apply (drule seq_step, erule exE)
    apply (rule exI, assumption)
    done
  then obtain i c where "rmatch (Seq (Grp ''val'' ?V # [Rep Space 0 None True,
                 Opt (Alt [Lit ''m'', Seq [Lit ''meter'', Opt (Lit ''s'')]])])) q (i, c) Some = Some m"
    by auto
  then have "rmatch ?V q (i, c) (\<lambda>(j, c'). rmatch ?T q (j, (''val'', i, j) # c') Some) = Some m"
    by (simp only: rmatch.simps(5) rmatch.simps(9))
  from val_inner_sound[OF this] obtain j where
    T: "rmatch ?T q (j, (''val'', i, j) # c) Some = Some m"
    and lit: "literal_value (take (j - i) (drop i q)) \<noteq> None" by auto
  have "no_groups ?T" by simp
  with rmatch_sound[OF T] obtain j' where "m = (j', (''val'', i, j) # c)" by auto
  then have "group q m ''val'' = Some (take (j - i) (drop i q))" by (simp add: group_def)
  with lit show ?thesis by simp
qed

text \<open>The parser raises on no text: \<open>float\<close> is only given what it reads.\<close>

lemma parse_height_filter_total: "\<exists>r. parse_height_filter q = Inr r"
proof (cases "q = [] \<or> search HEIGHT_REGEX q = None")
  case True
  then show ?thesis by (auto simp: parse_height_filter_def)
next
  case False
  then obtain m where m: "search HEIGHT_REGEX q = Some m" and q: "q \<noteq> []" by auto
  from search_val_literal[OF m] obtain t x where "group q m ''val'' = Some t" "literal_value t = Some x"
    by auto
  then show ?thesis using m q by (simp add: parse_height_filter_def py_float_def Let_def)
qed

lemma textual_map_range:
  "dict_get textual_map k ''=='' \<in> set [''>'', ''>='', ''<'', ''<='', ''=='']"
  by (simp add: dict_get_def textual_map_def)

lemma op_choice:
  "(if raw = [] then (if A then ''>'' else if B then ''<'' else ''=='')
    else dict_get textual_map raw ''=='') \<in> set [''>'', ''>='', ''<'', ''<='', ''=='']"
  by (cases "raw = []") (simp_all add: textual_map_range del: set_simps, simp)


text \<open>What a filter that the parser returns is made of.\<close>

lemma parse_shape:
  assumes "parse_height_filter q = Inr (Some f)"
  shows "op f \<in> set [''>'', ''>='', ''<'', ''<='', ''==''] \<and> (\<exists>s. py_float s = Inr (val f))"
proof -
  from assms obtain m where m: "search HEIGHT_REGEX q = Some m"
    by (auto simp: parse_height_filter_def split: if_splits option.splits)
  let ?raw = "py_lower (py_strip (case group q m ''op'' of None \<Rightarrow> [] | Some t \<Rightarrow> t))"
  let ?anchor = "py_lower (case group q m ''anchor'' of None \<Rightarrow> [] | Some t \<Rightarrow> t)"
  let ?lit = "case group q m ''val'' of None \<Rightarrow> [] | Some t \<Rightarrow> t"
  from assms m obtain v where v: "py_float ?lit = Inr v"
    and f: "f = \<lparr>op = (if ?raw = [] then
                        (if ?anchor \<in> set [''tall'', ''taller'', ''height'', ''greater'', ''above'', ''over'']
                         then ''>''
                         else if ?anchor \<in> set [''less'', ''below'', ''under''] then ''<'' else ''=='')
                      else dict_get textual_map ?raw ''==''), val = v\<rparr>"
    by (auto simp: parse_height_filter_def Let_def split: if_splits sum.splits)
  have "op f \<in> set [''>'', ''>='', ''<'', ''<='', ''=='']"
    unfolding f by (simp only: height_filter.simps op_choice)
  moreover have "py_float ?lit = Inr (val f)" using v f by simp
  ultimately show ?thesis by blast
qed

text \<open>
  Claim C1: the text \<open>at most 45 meters\<close> parses to the filter \<open><= 45.0\<close>. The code
  returns \<open>== 45.0\<close>: the anchor takes the words \<open>at most\<close>, no operator is left for group
  \<open>op\<close>, and the anchor \<open>at most\<close> is in neither tuple of the fallback.
\<close>

theorem parse_at_most_45_meters:
  "parse_height_filter ''at most 45 meters'' = Inr (Some \<lparr>op = ''=='', val = Fin 45\<rparr>) \<and>
   parse_height_filter ''at most 45 meters'' \<noteq> Inr (Some \<lparr>op = ''<='', val = Fin 45\<rparr>)"
  by (simp add: parse_eval cong: rx_cong)

text \<open>After another anchor the same words are read as the operator and mapped to \<open><=\<close>.\<close>

lemma parse_height_at_most_45_meters:
  "parse_height_filter ''height at most 45 meters'' = Inr (Some \<lparr>op = ''<='', val = Fin 45\<rparr>)"
  by (simp add: parse_eval cong: rx_cong)







section \<open>The filter engine: proofs\<close>

lemma select_rows_map: "select_rows rows (map p rows) = filter p rows"
  by (induction rows) (simp_all add: select_rows_def)

lemma select_rows_heights:
  "select_rows rows (map (p \<circ> g) rows) = filter (\<lambda>r. p (g r)) rows"
  using select_rows_map[of rows "p \<circ> g"] by (simp add: comp_def)

text \<open>The filter keeps the rows, in order, whose coerced height passes the comparison of
  the branch taken.\<close>

lemma apply_height_filter_keep:
  "apply_height_filter ext gdf (Some f) =
     filter (\<lambda>r. let h = to_numeric ext (height r) in
                   if op f = ''>'' then float_gt h (val f)
                   else if op f = ''>='' then float_ge h (val f)
                   else if op f = ''<'' then float_lt h (val f)
                   else if op f = ''<='' then float_le h (val f)
                   else float_eq h (val f)) gdf"
  by (simp add: apply_height_filter_def Let_def select_rows_heights)

lemma apply_height_filter_none: "apply_height_filter ext gdf None = gdf"
  by (simp add: apply_height_filter_def)

text \<open>
  Claim C4: for a filter with one of the five operators and a real threshold \<open>t\<close>, the result
  is the collection, in order, cut down by a test that rejects every row whose height is
  missing or not coercible (NaN after coercion), whatever the operator, and that accepts
  a row of coerced height \<open>h\<close> exactly when \<open>h op t\<close> holds on the reals.
\<close>

theorem apply_height_filter_compares:
  assumes "spec_compare (op f) = Some rel" and "val f = Fin t"
  shows "\<exists>keep. apply_height_filter ext gdf (Some f) = filter keep gdf
           \<and> (\<forall>r. to_numeric ext (height r) = NaN \<longrightarrow> \<not> keep r)
           \<and> (\<forall>r h. to_numeric ext (height r) = Fin h \<longrightarrow> keep r = rel h t)"
proof -
  let ?keep = "\<lambda>r. let h = to_numeric ext (height r) in
                   if op f = ''>'' then float_gt h (val f)
                   else if op f = ''>='' then float_ge h (val f)
                   else if op f = ''<'' then float_lt h (val f)
                   else if op f = ''<='' then float_le h (val f)
                   else float_eq h (val f)"
  have a: "apply_height_filter ext gdf (Some f) = filter ?keep gdf"
    by (rule apply_height_filter_keep)
  have b: "\<not> ?keep r" if "to_numeric ext (height r) = NaN" for r
    using that assms(2) by (simp add: float_gt_def float_ge_def float_le_def)
  have c: "?keep r = rel h t" if "to_numeric ext (height r) = Fin h" for r h
    using that assms
    by (auto simp: spec_compare_def float_gt_def float_ge_def float_le_def split: if_splits)
  from a b c show ?thesis by blast
qed

theorem apply_height_filter_compares_witness:
  "spec_compare ''>'' = Some (\<lambda>h t. h > t) \<and>
   apply_height_filter EXT0
       [row (Scalar (NpFloat (Fin 10))), row (Scalar (PyStr ''n/a'')), row (Scalar (NpFloat (Fin 50))),
        row (Scalar (NpFloat (Fin 90)))]
       (Some \<lparr>op = ''>'', val = Fin 40\<rparr>)
     = [row (Scalar (NpFloat (Fin 50))), row (Scalar (NpFloat (Fin 90)))]"
proof -
  let ?gdf = "[row (Scalar (NpFloat (Fin 10))), row (Scalar (PyStr ''n/a'')),
               row (Scalar (NpFloat (Fin 50))), row (Scalar (NpFloat (Fin 90)))]"
  have s: "spec_compare (op \<lparr>op = ''>'', val = Fin 40\<rparr>) = Some (\<lambda>h t. h > t)"
    by (simp add: spec_compare_def)
  have v: "val \<lparr>op = ''>'', val = Fin 40\<rparr> = Fin 40" by simp
  from apply_height_filter_compares[OF s v, of EXT0 ?gdf]
  obtain keep where k: "apply_height_filter EXT0 ?gdf (Some \<lparr>op = ''>'', val = Fin 40\<rparr>) = filter keep ?gdf"
    and n: "\<And>r. to_numeric EXT0 (height r) = NaN \<Longrightarrow> \<not> keep r"
    and c: "\<And>r h. to_numeric EXT0 (height r) = Fin h \<Longrightarrow> keep r = (h > 40)"
    by blast
  have "\<not> keep (row (Scalar (NpFloat (Fin 10))))" using c[of "row (Scalar (NpFloat (Fin 10)))" 10]
    by (simp add: EXT0_def row_def)
  moreover have "\<not> keep (row (Scalar (PyStr ''n/a'')))" using n[of "row (Scalar (PyStr ''n/a''))"]
    by (simp add: EXT0_def row_def)
  moreover have "keep (row (Scalar (NpFloat (Fin 50))))" using c[of "row (Scalar (NpFloat (Fin 50)))" 50]
    by (simp add: EXT0_def row_def)
  moreover have "keep (row (Scalar (NpFloat (Fin 90))))" using c[of "row (Scalar (NpFloat (Fin 90)))" 90]
    by (simp add: EXT0_def row_def)
  ultimately show ?thesis using k s by simp
qed

section \<open>The property normalizer: proofs\<close>

text \<open>
  Claim C8: the normalizer raises on no value and hands back unchanged what it does not
  recognize. On the list \<open>[1, 2]\<close> the code raises: \<open>pd.isna\<close> of a list is an array of two
  booleans, and \<open>if\<close> on such an array is a \<open>ValueError\<close>.
\<close>

theorem normalize_property_list_raises:
  "normalize_property (PyList [PyInt 1, PyInt 2]) = Inl ValueError \<and>
   normalize_property (PyList [PyInt 1, PyInt 2]) \<noteq> Inr (PyList [PyInt 1, PyInt 2])"
  by (simp add: normalize_property_def)

text \<open>On a scalar the normalizer returns, and a text goes through unchanged.\<close>

lemma normalize_property_scalar_total: "\<exists>v. normalize_property (Scalar x) = Inr v"
  by (cases x) (auto simp: normalize_property_def split: bool.splits)

lemma normalize_property_str: "normalize_property (Scalar (PyStr s)) = Inr (Scalar (PyStr s))"
  by (simp add: normalize_property_def)

text \<open>
  Claim C9: a boolean, Python's or numpy's, is normalized to a boolean. Python's \<open>True\<close>
  comes back as the integer 1: \<open>bool\<close> is a \<open>numbers.Integral\<close>, and that test stands before
  the test for booleans. numpy's \<open>bool_\<close> reaches the test for booleans and comes back as
  \<open>True\<close>.
\<close>

theorem normalize_property_bool:
  "normalize_property (Scalar (PyBool True)) = Inr (Scalar (PyInt 1)) \<and>
   normalize_property (Scalar (PyBool True)) \<noteq> Inr (Scalar (PyBool True)) \<and>
   normalize_property (Scalar (PyBool False)) = Inr (Scalar (PyInt 0)) \<and>
   normalize_property (Scalar (NpBool True)) = Inr (Scalar (PyBool True))"
  by (simp add: normalize_property_def)

section \<open>The colour column and the assembler: proofs\<close>

lemma float_le_refl: "\<not> isna a \<Longrightarrow> float_le a a"
  by (cases a) (simp_all add: float_le_def)

lemma float_le_total: "\<not> isna a \<Longrightarrow> \<not> isna b \<Longrightarrow> \<not> float_lt a b \<Longrightarrow> float_le b a"
  by (cases a; cases b) (auto simp: float_le_def)

lemma float_lt_le: "float_lt a b \<Longrightarrow> float_le a b"
  by (simp add: float_le_def)

lemma float_le_trans: "float_le a b \<Longrightarrow> float_le b c \<Longrightarrow> float_le a c"
  by (cases a; cases b; cases c) (auto simp: float_le_def)

lemma dropna_no_nan: "h \<in> set (dropna hs) \<Longrightarrow> \<not> isna h"
  by (simp add: dropna_def)

lemma dropna_idem: "dropna (dropna hs) = dropna hs"
  by (simp add: dropna_def)

lemma foldl_min:
  assumes "\<forall>h \<in> set (x # xs). \<not> isna h"
  shows "foldl (\<lambda>m h. if float_lt h m then h else m) x xs \<in> set (x # xs) \<and>
         (\<forall>h \<in> set (x # xs). float_le (foldl (\<lambda>m h. if float_lt h m then h else m) x xs) h)"
  using assms
proof (induction xs arbitrary: x)
  case Nil
  then show ?case by (simp add: float_le_refl)
next
  case (Cons a xs)
  let ?f = "\<lambda>m h. if float_lt h m then h else m"
  let ?x = "if float_lt a x then a else x"
  have nn: "\<forall>h \<in> set (?x # xs). \<not> isna h" using Cons.prems by auto
  from Cons.IH[OF nn] have m: "foldl ?f ?x xs \<in> set (?x # xs)"
    and le: "\<forall>h \<in> set (?x # xs). float_le (foldl ?f ?x xs) h" by blast+
  have xa: "float_le ?x a" "float_le ?x x"
    using Cons.prems by (auto simp: float_le_refl float_lt_le intro: float_le_total)
  from le have "float_le (foldl ?f ?x xs) ?x" by simp
  then have "float_le (foldl ?f ?x xs) a" "float_le (foldl ?f ?x xs) x"
    using xa float_le_trans by blast+
  with m le show ?case by auto
qed

lemma foldl_max:
  assumes "\<forall>h \<in> set (x # xs). \<not> isna h"
  shows "foldl (\<lambda>m h. if float_lt m h then h else m) x xs \<in> set (x # xs) \<and>
         (\<forall>h \<in> set (x # xs). float_le h (foldl (\<lambda>m h. if float_lt m h then h else m) x xs))"
  using assms
proof (induction xs arbitrary: x)
  case Nil
  then show ?case by (simp add: float_le_refl)
next
  case (Cons a xs)
  let ?f = "\<lambda>m h. if float_lt m h then h else m"
  let ?x = "if float_lt x a then a else x"
  have nn: "\<forall>h \<in> set (?x # xs). \<not> isna h" using Cons.prems by auto
  from Cons.IH[OF nn] have m: "foldl ?f ?x xs \<in> set (?x # xs)"
    and le: "\<forall>h \<in> set (?x # xs). float_le h (foldl ?f ?x xs)" by blast+
  have xa: "float_le a ?x" "float_le x ?x"
    using Cons.prems by (auto simp: float_le_refl float_lt_le intro: float_le_total)
  from le have "float_le ?x (foldl ?f ?x xs)" by simp
  then have "float_le a (foldl ?f ?x xs)" "float_le x (foldl ?f ?x xs)"
    using xa float_le_trans by blast+
  with m le show ?case by auto
qed

lemma series_min_dropna: "series_min (dropna hs) = series_min hs"
  by (simp add: series_min_def dropna_idem)

lemma series_max_dropna: "series_max (dropna hs) = series_max hs"
  by (simp add: series_max_def dropna_idem)

lemma series_range: "subset_range (dropna hs) (series_min (dropna hs)) (series_max (dropna hs))"
proof (cases "dropna hs")
  case Nil
  then have nan: "series_min hs = NaN" "series_max hs = NaN"
    by (simp_all add: series_min_def series_max_def)
  have "subset_range (dropna hs) (series_min hs) (series_max hs)"
    unfolding nan subset_range_def using Nil by simp
  then show ?thesis by (simp only: series_min_dropna series_max_dropna)
next
  case (Cons x xs)
  then have nn: "\<forall>h \<in> set (x # xs). \<not> isna h" using dropna_no_nan[of _ hs] by auto
  have mn: "series_min hs = foldl (\<lambda>m h. if float_lt h m then h else m) x xs"
    and mx: "series_max hs = foldl (\<lambda>m h. if float_lt m h then h else m) x xs"
    using Cons by (simp_all add: series_min_def series_max_def)
  have "subset_range (dropna hs) (series_min hs) (series_max hs)"
    unfolding mn mx subset_range_def Cons using foldl_min[OF nn] foldl_max[OF nn] by simp
  then show ?thesis by (simp only: series_min_dropna series_max_dropna)
qed

lemma clamp_fin: "\<exists>q. py_max (Fin 0) (py_min (Fin 1) r) = Fin q \<and> 0 \<le> q \<and> q \<le> 1"
  by (cases r) (auto simp: py_max_def py_min_def float_gt_def)

lemma truediv_ok:
  assumes "\<not> float_eq hi lo"
  shows "\<exists>r. float_truediv (float_sub h lo) (float_sub hi lo) = Inr r"
  using assms by (cases h; cases lo; cases hi) auto

text \<open>The colour function raises on no arguments.\<close>

lemma height_to_color_total: "\<exists>c. height_to_color h lo hi = Inr c"
proof (cases "isna h \<or> float_eq hi lo")
  case True
  then show ?thesis by (auto simp: height_to_color_def)
next
  case False
  then obtain r where r: "float_truediv (float_sub h lo) (float_sub hi lo) = Inr r"
    using truediv_ok by blast
  obtain q where q: "py_max (Fin 0) (py_min (Fin 1) r) = Fin q" using clamp_fin by blast
  show ?thesis using False r q by (simp add: height_to_color_def)
qed

lemma height_to_color_colour_of: "height_to_color h lo hi = Inr (colour_of h lo hi)"
  using height_to_color_total[of h lo hi] by (auto simp: colour_of_def)

lemma colour_of_nan: "colour_of NaN lo hi = ''#1f78b4''"
  by (simp add: colour_of_def height_to_color_def)


lemma map_raise_Inr: "(\<And>x. x \<in> set xs \<Longrightarrow> f x = Inr (g x)) \<Longrightarrow> map_raise f xs = Inr (map g xs)"
  by (induction xs) simp_all

lemma map_raise_all2: "map_raise f xs = Inr ys \<Longrightarrow> list_all2 (\<lambda>x y. f x = Inr y) xs ys"
  by (induction xs arbitrary: ys) (auto split: sum.splits)

lemma map_raise_lookup:
  assumes "map_raise (\<lambda>(k, v). case g v of Inl e \<Rightarrow> Inl e | Inr v' \<Rightarrow> Inr (k, v')) xs = Inr ys"
    and "map_of xs k = Some v"
  shows "\<exists>v'. g v = Inr v' \<and> map_of ys k = Some v'"
  using assms
proof (induction xs arbitrary: ys)
  case Nil
  then show ?case by simp
next
  case (Cons a xs)
  obtain k0 v0 where a: "a = (k0, v0)" by (cases a)
  from Cons.prems(1) a obtain v0' ys' where v0: "g v0 = Inr v0'"
    and rest: "map_raise (\<lambda>(k, v). case g v of Inl e \<Rightarrow> Inl e | Inr v' \<Rightarrow> Inr (k, v')) xs = Inr ys'"
    and ys: "ys = (k0, v0') # ys'"
    by (auto split: sum.splits)
  show ?case
  proof (cases "k0 = k")
    case True
    with Cons.prems(2) a have "v = v0" by simp
    with True v0 ys show ?thesis by simp
  next
    case False
    with Cons.prems(2) a have "map_of xs k = Some v" by simp
    from Cons.IH[OF rest this] False ys show ?thesis by simp
  qed
qed

lemma set_column_height [simp]: "height (set_column k v r) = height r"
  by (simp add: set_column_def)

lemma set_column_geometry [simp]: "geometry (set_column k v r) = geometry r"
  by (simp add: set_column_def)

lemma coloured_row_height [simp]: "height (coloured_row ext lo hi r) = height r"
  by (simp add: coloured_row_def)

lemma colour_of_isna: "isna h \<Longrightarrow> colour_of h lo hi = ''#1f78b4''"
  by (cases h) (simp_all add: colour_of_nan)

lemma colour_or_sentinel:
  "(if \<not> isna h then height_to_color h lo hi else Inr ''#1f78b4'') = Inr (colour_of h lo hi)"
  by (cases "isna h") (simp_all add: height_to_color_colour_of colour_of_isna)

lemma zip_colours:
  "map (\<lambda>(r, c). set_column ''color'' (Scalar (PyStr c)) r)
     (zip (map (\<lambda>r. set_column ''height_numeric'' (Scalar (NpFloat (to_numeric ext (height r)))) r) gdf)
          (map (\<lambda>h. colour_of h lo hi) (map (\<lambda>r. to_numeric ext (height r)) gdf)))
   = map (coloured_row ext lo hi) gdf"
  by (induction gdf) (simp_all add: coloured_row_def)

lemma add_colour_column_eq:
  "add_colour_column ext gdf =
     Inr (map (coloured_row ext (series_min (dropna (map (\<lambda>r. to_numeric ext (height r)) gdf)))
                               (series_max (dropna (map (\<lambda>r. to_numeric ext (height r)) gdf)))) gdf)"
proof -
  let ?hn = "\<lambda>r. to_numeric ext (height r)"
  let ?gdf = "map (\<lambda>r. set_column ''height_numeric'' (Scalar (NpFloat (?hn r))) r) gdf"
  let ?hs = "dropna (map ?hn gdf)"
  let ?lo = "series_min ?hs" and ?hi = "series_max ?hs"
  have hn: "map ?hn ?gdf = map ?hn gdf" by (simp add: comp_def)
  show ?thesis
  proof (cases "?hs = []")
    case True
    then have "\<forall>r \<in> set gdf. isna (?hn r)" by (auto simp: dropna_def filter_empty_conv)
    then have "map (set_column ''color'' (Scalar (PyStr ''#1f78b4''))) ?gdf = map (coloured_row ext ?lo ?hi) gdf"
      by (simp add: coloured_row_def colour_of_isna)
    with True show ?thesis
      unfolding add_colour_column_def Let_def hn by simp
  next
    case False
    have "map_raise (\<lambda>h. if \<not> isna h then height_to_color h ?lo ?hi
                           else Inr ''#1f78b4'') (map ?hn gdf)
            = Inr (map (\<lambda>h. colour_of h ?lo ?hi) (map ?hn gdf))"
      by (rule map_raise_Inr) (simp only: colour_or_sentinel)
    moreover have "map (\<lambda>(r, c). set_column ''color'' (Scalar (PyStr c)) r)
                     (zip ?gdf (map (\<lambda>h. colour_of h ?lo ?hi) (map ?hn gdf)))
                   = map (coloured_row ext ?lo ?hi) gdf"
      by (rule zip_colours)
    ultimately show ?thesis using False
      unfolding add_colour_column_def Let_def hn by (simp add: dropna_idem)
  qed
qed


lemma row_props_colour:
  "map_of (row_props (coloured_row ext lo hi r)) ''color''
     = Some (Scalar (PyStr (colour_of (to_numeric ext (height r)) lo hi)))"
  by (simp add: row_props_def coloured_row_def set_column_def delete_conv' update_conv')

lemma serialize_colour:
  assumes "serialize_feature ext (coloured_row ext lo hi r) = Inr f"
  shows "map_of (properties f) ''color'' = Some (Scalar (PyStr (colour_of (to_numeric ext (height r)) lo hi)))"
proof -
  let ?row = "coloured_row ext lo hi r"
  from assms obtain nps where
    nps: "map_raise (\<lambda>(k, v). case normalize_property v of Inl e \<Rightarrow> Inl e | Inr v' \<Rightarrow> Inr (k, v'))
            (row_props ?row) = Inr nps"
    and f: "properties f = nps"
    by (auto simp: serialize_feature_def Let_def split: sum.splits)
  from map_raise_lookup[OF nps row_props_colour] f show ?thesis
    by (simp add: normalize_property_str)
qed

declare dec_digits.simps [simp del]

lemma fmt_thousands_0: "fmt_thousands 0 = ''0''"
  by (simp add: fmt_thousands_def dec_digits.simps dec_digit_def)

lemma op_text_ok:
  "opr \<in> set [''>'', ''>='', ''<'', ''<='', ''==''] \<Longrightarrow> \<exists>t. dict_item op_text_map opr = Inr t"
  by (auto simp: dict_item_def op_text_map_def)

text \<open>With one of the five operators (or no filter) the insights are built, and the second
  of them is the sentence of the counts.\<close>

lemma build_insights_ok:
  assumes "\<And>f. filt = Some f \<Longrightarrow> op f \<in> set [''>'', ''>='', ''<'', ''<='', ''=='']"
  shows "\<exists>ins. build_insights ext rows filt n = Inr ins \<and>
           (fmt_thousands (length rows) @ '' of '' @ fmt_thousands n @ '' buildings match the query.'')
             \<in> set ins"
proof (cases filt)
  case None
  then show ?thesis by (simp add: build_insights_def Let_def)
next
  case (Some f)
  from op_text_ok[OF assms[OF Some]] obtain t where "dict_item op_text_map (op f) = Inr t" ..
  with Some show ?thesis by (simp add: build_insights_def Let_def)
qed

lemmas pipeline_eval = query_geo_def apply_height_filter_def select_rows_def add_colour_column_def
  set_column_def dropna_def series_min_def series_max_def float_gt_def float_ge_def float_le_def
  serialize_feature_def row_props_def normalize_property_def build_insights_def dict_item_def
  op_text_map_def fmt_thousands_def dec_digits.simps dec_digit_def EXT0_def row_def GDF0_def
  whole_text_def mean_fin_def Let_def height_to_color_def py_max_def py_min_def trunc_def
  fmt_02x_def hex_digits.simps hex_digit_def

text \<open>
  Claim C6: when the filtered subset of a query is empty, the response has no features, the
  bounds \<open>[0, 0, 1, 1]\<close>, the sentinel \<open>#1f78b4\<close> at both ends of the legend, and among its
  insights the sentence \<open>0 of N buildings match the query.\<close>, where \<open>N\<close> is the number of
  records of the collection, written with a comma before every group of three digits.
  (The parser returns on every text: lemma \<open>parse_height_filter_total\<close>.)
\<close>

theorem query_geo_empty_subset:
  assumes "parse_height_filter q = Inr filt" and "apply_height_filter ext gdf filt = []"
  shows "\<exists>resp. query_geo ext (Some gdf) q = Inr resp \<and> features resp = [] \<and>
           bounds resp = [Fin 0, Fin 0, Fin 1, Fin 1] \<and>
           color_legend resp = \<lparr>low = ''#1f78b4'', high = ''#1f78b4''\<rparr> \<and>
           (''0 of '' @ fmt_thousands (length gdf) @ '' buildings match the query.'') \<in> set (insights resp)"
proof -
  have ops: "op f \<in> set [''>'', ''>='', ''<'', ''<='', ''=='']" if "filt = Some f" for f
    using parse_shape[of q f] assms(1) that by simp
  from build_insights_ok[of filt ext "[]" "length gdf", OF ops] obtain ins where
    ins: "build_insights ext [] filt (length gdf) = Inr ins"
    and mem: "(''0 of '' @ fmt_thousands (length gdf) @ '' buildings match the query.'') \<in> set ins"
    by (auto simp: fmt_thousands_0)
  have col: "add_colour_column ext [] = Inr []" by (simp add: add_colour_column_eq)
  show ?thesis
    unfolding query_geo_def using assms ins mem by (simp add: col)
qed

theorem query_geo_empty_subset_witness:
  "parse_height_filter ''height > 100'' = Inr (Some \<lparr>op = ''>'', val = Fin 100\<rparr>) \<and>
   apply_height_filter EXT0 GDF0 (Some \<lparr>op = ''>'', val = Fin 100\<rparr>) = [] \<and>
   query_geo EXT0 (Some GDF0) ''height > 100'' =
     Inr \<lparr>features = [], bounds = [Fin 0, Fin 0, Fin 1, Fin 1],
          insights = [''Showing buildings with height greater than 100.0 m.'',
                      ''0 of 3 buildings match the query.''],
          color_legend = \<lparr>low = ''#1f78b4'', high = ''#1f78b4''\<rparr>\<rparr>"
proof -
  have p: "parse_height_filter ''height > 100'' = Inr (Some \<lparr>op = ''>'', val = Fin 100\<rparr>)"
    by (simp add: parse_eval cong: rx_cong)
  have e: "apply_height_filter EXT0 GDF0 (Some \<lparr>op = ''>'', val = Fin 100\<rparr>) = []"
    by (simp add: apply_height_filter_def select_rows_def float_gt_def EXT0_def row_def GDF0_def)
  have r: "query_geo EXT0 (Some GDF0) ''height > 100'' =
     Inr \<lparr>features = [], bounds = [Fin 0, Fin 0, Fin 1, Fin 1],
          insights = [''Showing buildings with height greater than 100.0 m.'',
                      ''0 of 3 buildings match the query.''],
          color_legend = \<lparr>low = ''#1f78b4'', high = ''#1f78b4''\<rparr>\<rparr>"
    by (simp add: p pipeline_eval)
  from query_geo_empty_subset[OF p e] p e r show ?thesis by simp
qed

text \<open>
  Claim C7: in every response the colour of each feature and the two ends of the legend
  are computed in the range from the least to the greatest numeric height of the filtered
  subset itself, missing heights dropped; the full collection does not enter. (With no
  numeric height in the subset the range is NaN to NaN and every colour is the sentinel.)
\<close>

theorem query_geo_colour_scope:
  assumes "parse_height_filter q = Inr filt" and "query_geo ext (Some gdf) q = Inr resp"
  shows "\<exists>lo hi.
           subset_range (dropna (map (\<lambda>r. to_numeric ext (height r)) (apply_height_filter ext gdf filt))) lo hi \<and>
           list_all2 (\<lambda>r f. \<exists>c. height_to_color (to_numeric ext (height r)) lo hi = Inr c \<and>
                              map_of (properties f) ''color'' = Some (Scalar (PyStr c)))
             (apply_height_filter ext gdf filt) (features resp) \<and>
           (\<exists>cl ch. height_to_color lo lo hi = Inr cl \<and> height_to_color hi lo hi = Inr ch \<and>
                    color_legend resp = \<lparr>low = cl, high = ch\<rparr>)"
proof -
  let ?sub = "apply_height_filter ext gdf filt"
  let ?hs = "dropna (map (\<lambda>r. to_numeric ext (height r)) ?sub)"
  let ?lo = "series_min ?hs" and ?hi = "series_max ?hs"
  let ?col = "map (coloured_row ext ?lo ?hi) ?sub"
  have col: "add_colour_column ext ?sub = Inr ?col" by (rule add_colour_column_eq)
  have hcol: "map ((\<lambda>r. to_numeric ext (height r)) \<circ> coloured_row ext lo hi) xs
               = map (\<lambda>r. to_numeric ext (height r)) xs" for lo hi xs
    by simp
  from assms obtain feats where
    feats: "map_raise (serialize_feature ext) ?col = Inr feats" and fr: "features resp = feats"
    unfolding query_geo_def by (auto simp: col Let_def split: sum.splits if_splits)
  have rng: "subset_range ?hs ?lo ?hi" by (rule series_range)
  have "list_all2 (\<lambda>r f. serialize_feature ext (coloured_row ext ?lo ?hi r) = Inr f) ?sub feats"
    using map_raise_all2[OF feats] by (simp add: list_all2_map1)
  then have cols: "list_all2 (\<lambda>r f. \<exists>c. height_to_color (to_numeric ext (height r)) ?lo ?hi = Inr c \<and>
                              map_of (properties f) ''color'' = Some (Scalar (PyStr c))) ?sub feats"
    by (rule list_all2_mono) (auto simp: height_to_color_colour_of dest: serialize_colour)
  have lg: "color_legend resp = \<lparr>low = colour_of ?lo ?lo ?hi, high = colour_of ?hi ?lo ?hi\<rparr>"
  proof (cases "?sub = []")
    case True
    have c0: "add_colour_column ext [] = Inr []" by (simp add: add_colour_column_eq)
    from True have nan: "?lo = NaN" "?hi = NaN"
      by (simp_all add: series_min_def series_max_def dropna_def)
    from True assms have "color_legend resp = \<lparr>low = ''#1f78b4'', high = ''#1f78b4''\<rparr>"
      unfolding query_geo_def by (auto simp: c0 Let_def split: sum.splits if_splits)
    then show ?thesis unfolding nan by (simp add: colour_of_nan)
  next
    case False
    with assms show ?thesis
      unfolding query_geo_def
      by (auto simp: col hcol height_to_color_colour_of series_min_dropna series_max_dropna Let_def
               split: sum.splits if_splits)
  qed
  show ?thesis
    using rng cols lg fr height_to_color_colour_of by blast
qed


text \<open>
  The same three buildings under two queries: the building of height 50 is at the low end
  of the range of \<open>height > 40\<close> and in the middle of the range of all buildings.
\<close>

theorem query_geo_colour_scope_witness:
  "parse_height_filter ''height > 40'' = Inr (Some \<lparr>op = ''>'', val = Fin 40\<rparr>) \<and>
   query_geo EXT0 (Some GDF0) ''height > 40'' =
     Inr \<lparr>features =
            [\<lparr>ftype = ''Feature'',
              properties = [(''height'', Scalar (PyFloat (Fin 50))), (''color'', Scalar (PyStr ''#00ff00''))],
              fgeometry = Some ()\<rparr>,
             \<lparr>ftype = ''Feature'',
              properties = [(''height'', Scalar (PyFloat (Fin 90))), (''color'', Scalar (PyStr ''#ff0000''))],
              fgeometry = Some ()\<rparr>],
          bounds = [Fin 0, Fin 0, Fin 2, Fin 2],
          insights = [''Showing buildings with height greater than 40.0 m.'',
                      ''2 of 3 buildings match the query.'',
                      ''Height range in result: 50.0 m '' @ EN_DASH @ '' 90.0 m (average 70.0 m)''],
          color_legend = \<lparr>low = ''#00ff00'', high = ''#ff0000''\<rparr>\<rparr> \<and>
   query_geo EXT0 (Some GDF0) ''show all buildings'' =
     Inr \<lparr>features =
            [\<lparr>ftype = ''Feature'',
              properties = [(''height'', Scalar (PyFloat (Fin 10))), (''color'', Scalar (PyStr ''#00ff00''))],
              fgeometry = Some ()\<rparr>,
             \<lparr>ftype = ''Feature'',
              properties = [(''height'', Scalar (PyFloat (Fin 50))), (''color'', Scalar (PyStr ''#7f7f00''))],
              fgeometry = Some ()\<rparr>,
             \<lparr>ftype = ''Feature'',
              properties = [(''height'', Scalar (PyFloat (Fin 90))), (''color'', Scalar (PyStr ''#ff0000''))],
              fgeometry = Some ()\<rparr>],
          bounds = [Fin 0, Fin 0, Fin 2, Fin 2],
          insights = [''Showing all buildings.'',
                      ''3 of 3 buildings match the query.'',
                      ''Height range in result: 10.0 m '' @ EN_DASH @ '' 90.0 m (average 50.0 m)''],
          color_legend = \<lparr>low = ''#00ff00'', high = ''#ff0000''\<rparr>\<rparr>"
proof -
  have p: "parse_height_filter ''height > 40'' = Inr (Some \<lparr>op = ''>'', val = Fin 40\<rparr>)"
    by (simp add: parse_eval cong: rx_cong)
  have q: "query_geo EXT0 (Some GDF0) ''height > 40'' =
     Inr \<lparr>features =
            [\<lparr>ftype = ''Feature'',
              properties = [(''height'', Scalar (PyFloat (Fin 50))), (''color'', Scalar (PyStr ''#00ff00''))],
              fgeometry = Some ()\<rparr>,
             \<lparr>ftype = ''Feature'',
              properties = [(''height'', Scalar (PyFloat (Fin 90))), (''color'', Scalar (PyStr ''#ff0000''))],
              fgeometry = Some ()\<rparr>],
          bounds = [Fin 0, Fin 0, Fin 2, Fin 2],
          insights = [''Showing buildings with height greater than 40.0 m.'',
                      ''2 of 3 buildings match the query.'',
                      ''Height range in result: 50.0 m '' @ EN_DASH @ '' 90.0 m (average 70.0 m)''],
          color_legend = \<lparr>low = ''#00ff00'', high = ''#ff0000''\<rparr>\<rparr>"
    by (simp add: p pipeline_eval)
  have pa: "parse_height_filter ''show all buildings'' = Inr None"
    by (simp add: parse_eval cong: rx_cong)
  have qa: "query_geo EXT0 (Some GDF0) ''show all buildings'' =
     Inr \<lparr>features =
            [\<lparr>ftype = ''Feature'',
              properties = [(''height'', Scalar (PyFloat (Fin 10))), (''color'', Scalar (PyStr ''#00ff00''))],
              fgeometry = Some ()\<rparr>,
             \<lparr>ftype = ''Feature'',
              properties = [(''height'', Scalar (PyFloat (Fin 50))), (''color'', Scalar (PyStr ''#7f7f00''))],
              fgeometry = Some ()\<rparr>,
             \<lparr>ftype = ''Feature'',
              properties = [(''height'', Scalar (PyFloat (Fin 90))), (''color'', Scalar (PyStr ''#ff0000''))],
              fgeometry = Some ()\<rparr>],
          bounds = [Fin 0, Fin 0, Fin 2, Fin 2],
          insights = [''Showing all buildings.'',
                      ''3 of 3 buildings match the query.'',
                      ''Height range in result: 10.0 m '' @ EN_DASH @ '' 90.0 m (average 50.0 m)''],
          color_legend = \<lparr>low = ''#00ff00'', high = ''#ff0000''\<rparr>\<rparr>"
    by (simp add: pa pipeline_eval)
  from query_geo_colour_scope[OF p q] query_geo_colour_scope[OF pa qa] p q qa
  show ?thesis by simp
qed

end
